theory Spec2Isabelle
  imports Main
begin

section \<open>The HTTP/WebSocket proxy of scripts/simple-http-ws-proxy.py\<close>

text \<open>
  The script is one request handler class, \<^verbatim>\<open>HTTPWebSocketHandler\<close>, with two methods of
  interest: \<^verbatim>\<open>do_GET\<close> (the request classifier) and \<^verbatim>\<open>handle_websocket\<close> (backend connect,
  handshake forwarding, relay loop). The operating system and the network are an oracle:
  whether the connect succeeds, how many bytes each \<^verbatim>\<open>send\<close> takes, what each
  \<^verbatim>\<open>select\<close> reports and what each \<^verbatim>\<open>recv\<close> and \<^verbatim>\<open>sendall\<close> does are inputs of the model.
\<close>

subsection \<open>Strings\<close>

text \<open>
  \<^verbatim>\<open>http.server\<close> decodes the request line and the header block as ISO-8859-1, so every
  character of \<^verbatim>\<open>self.command\<close>, \<^verbatim>\<open>self.path\<close>, \<^verbatim>\<open>self.request_version\<close> and of the header
  names and values is a code point below 256: a \<^typ>\<open>char\<close>. Bytes are \<^typ>\<open>char\<close>s too.
\<close>

type_synonym bytes = "char list"

text \<open>
  \<^verbatim>\<open>str.lower()\<close> on code points below 256: the upper-case letters are A to Z (65 to 90) and
  the Latin-1 capitals 192 to 222 without the multiplication sign 215; the lower-case
  letter is 32 further on, which for these codes is bit 5 set.
\<close>

definition is_upper :: "char \<Rightarrow> bool" where
  "is_upper c =
     (let n = (of_char c :: nat)
      in (65 \<le> n \<and> n \<le> 90) \<or> (192 \<le> n \<and> n \<le> 222 \<and> n \<noteq> 215))"

definition lower_char :: "char \<Rightarrow> char" where
  "lower_char c =
     (if is_upper c
      then Char (digit0 c) (digit1 c) (digit2 c) (digit3 c) (digit4 c) True (digit6 c) (digit7 c)
      else c)"

definition str_lower :: "string \<Rightarrow> string" where
  "str_lower s = map lower_char s"

text \<open>
  \<^verbatim>\<open>str.encode()\<close> is UTF-8: a code point below 128 is one byte, a code point from 128 to 255
  is the two bytes \<^verbatim>\<open>0xC0 | (n >> 6)\<close> and \<^verbatim>\<open>0x80 | (n & 0x3F)\<close>.
\<close>

definition utf8_char :: "char \<Rightarrow> bytes" where
  "utf8_char c =
     (if digit7 c
      then [Char (digit6 c) True False False False False True True,
            Char (digit0 c) (digit1 c) (digit2 c) (digit3 c) (digit4 c) (digit5 c) False True]
      else [c])"

definition encode :: "string \<Rightarrow> bytes" where
  "encode s = concat (map utf8_char s)"

definition CRLF :: string where
  "CRLF = [CHR 0x0D, CHR 0x0A]"

subsection \<open>The request and its headers\<close>

text \<open>
  \<^verbatim>\<open>self.headers\<close> is an \<^verbatim>\<open>http.client.HTTPMessage\<close>: the list of (name, value) fields in the
  order received, duplicates kept. Iterating it yields the names in that order;
  \<^verbatim>\<open>get(name, failobj)\<close> returns the value of the first field whose name equals \<^verbatim>\<open>name\<close>
  after lower-casing both, and \<^verbatim>\<open>failobj\<close> when there is none; \<^verbatim>\<open>headers[name]\<close> is
  \<^verbatim>\<open>get(name)\<close> with \<^verbatim>\<open>None\<close> for \<^verbatim>\<open>failobj\<close>.
\<close>

type_synonym message = "(string \<times> string) list"

record request =
  command :: string
  path :: string
  request_version :: string
  headers :: message

fun headers_get :: "message \<Rightarrow> string \<Rightarrow> 'a \<Rightarrow> (string \<Rightarrow> 'a) \<Rightarrow> 'a" where
  "headers_get [] name failobj found = failobj"
| "headers_get ((k, v) # hs) name failobj found =
     (if str_lower k = str_lower name then found v else headers_get hs name failobj found)"

definition headers_getitem :: "message \<Rightarrow> string \<Rightarrow> string option" where
  "headers_getitem hs name = headers_get hs name None Some"

definition headers_iter :: "message \<Rightarrow> string list" where
  "headers_iter hs = map fst hs"

subsection \<open>The request classifier: \<^verbatim>\<open>do_GET\<close>\<close>

text \<open>
  \<^verbatim>\<open>do_GET\<close> calls exactly one of \<^verbatim>\<open>self.handle_websocket()\<close> and \<^verbatim>\<open>super().do_GET()\<close>;
  the model returns which.
\<close>

datatype handler = Relay | Static

definition do_GET :: "request \<Rightarrow> handler" where
  "do_GET req =
     (if str_lower (headers_get (headers req) ''Upgrade'' '''' (\<lambda>v. v)) = ''websocket''
      then Relay
      else Static)"

text \<open>
  The words of the specification, for comparison with \<^const>\<open>do_GET\<close>: the request's Upgrade
  header value is the value of its first field named Upgrade in any letter case, and the
  empty string when it has none; two characters match case-insensitively when they are
  equal or are the two cases of one of the letters A to Z; two strings match when they
  have the same length and match character by character.
\<close>

definition upgrade_value :: "request \<Rightarrow> string" where
  "upgrade_value req =
     (case filter (\<lambda>h. str_lower (fst h) = ''upgrade'') (headers req) of
        [] \<Rightarrow> ''''
      | h # _ \<Rightarrow> snd h)"

definition ci_eq_char :: "char \<Rightarrow> char \<Rightarrow> bool" where
  "ci_eq_char a b =
     (let m = (of_char a :: nat); n = (of_char b :: nat)
      in m = n \<or> (65 \<le> m \<and> m \<le> 90 \<and> n = m + 32) \<or> (65 \<le> n \<and> n \<le> 90 \<and> m = n + 32))"

definition ci_match :: "string \<Rightarrow> string \<Rightarrow> bool" where
  "ci_match v w = list_all2 ci_eq_char v w"

subsection \<open>Sockets, exceptions and the oracle\<close>

text \<open>
  A relay session has exactly two sockets: \<^verbatim>\<open>client\<close> (\<^verbatim>\<open>self.request\<close>) and \<^verbatim>\<open>backend\<close>.
  Three exceptions can arise in \<^verbatim>\<open>handle_websocket\<close>: \<^verbatim>\<open>socket.error\<close> (an alias of
  \<^verbatim>\<open>OSError\<close>) from a socket call, \<^verbatim>\<open>UnboundLocalError\<close> from reading the local \<^verbatim>\<open>other\<close>
  before it is assigned, and \<^verbatim>\<open>ValueError\<close> from \<^verbatim>\<open>list.remove\<close> of an absent element or
  from \<^verbatim>\<open>select\<close> on a socket whose descriptor has been released.
\<close>

datatype sock = Client | Backend

datatype exn = OSError | UnboundLocalError | ValueError

datatype event = Connect | Recv sock | Close sock | SendError nat

text \<open>
  What the network offers during one pass of the \<^verbatim>\<open>while\<close> loop: which sockets the
  operating system reports readable and exceptional, what is waiting to be read on each
  socket (no bytes waiting on a readable socket is end of file; the read can also fail),
  and whether a \<^verbatim>\<open>sendall\<close> to a socket completes (\<open>None\<close>) or raises after \<open>n\<close> bytes
  (\<open>Some n\<close>).
\<close>

datatype recv_result = RecvData bytes | RecvError

record poll =
  readable_now :: "sock \<Rightarrow> bool"
  exceptional_now :: "sock \<Rightarrow> bool"
  incoming :: "sock \<Rightarrow> recv_result"
  sendall_error :: "sock \<Rightarrow> nat option"

text \<open>
  The whole oracle of one \<^verbatim>\<open>handle_websocket\<close> call: the result of \<^verbatim>\<open>backend.connect\<close>, for
  the \<open>i\<close>-th \<^verbatim>\<open>backend.send\<close> either how many bytes the kernel takes at most (\<open>Some n\<close>) or
  that it raises (\<open>None\<close>), and the passes of the loop. The loop may run for ever; the
  list of passes is its fuel.
\<close>

record world =
  connect_ok :: bool
  send_room :: "nat \<Rightarrow> nat option"
  rounds :: "poll list"

text \<open>
  The state of the handler: the local variables \<^verbatim>\<open>sockets\<close> and \<^verbatim>\<open>other\<close> (\<open>None\<close> while
  unassigned), the bytes written so far into each socket, the calls made so far, the
  number of \<^verbatim>\<open>send\<close> calls, and the attribute \<^verbatim>\<open>self.close_connection\<close>.
\<close>

record state =
  sockets :: "sock list"
  other :: "sock option"
  wire :: "sock \<Rightarrow> bytes"
  trace :: "event list"
  nsend :: nat
  close_connection :: bool

definition initial :: "bool \<Rightarrow> state" where
  "initial cc =
     \<lparr>sockets = [], other = None, wire = (\<lambda>s. []), trace = [], nsend = 0,
      close_connection = cc\<rparr>"

definition is_closed :: "state \<Rightarrow> sock \<Rightarrow> bool" where
  "is_closed st s = (Close s \<in> set (trace st))"

definition close :: "sock \<Rightarrow> state \<Rightarrow> state" where
  "close s st = st\<lparr>trace := trace st @ [Close s]\<rparr>"

text \<open>
  \<^verbatim>\<open>socket.close()\<close> marks the socket object closed and releases its descriptor only when no
  file object made from the socket is still open. The client socket is \<^verbatim>\<open>self.request\<close>, from
  which \<^verbatim>\<open>StreamRequestHandler.setup\<close> has made \<^verbatim>\<open>self.rfile\<close>: the handler's \<^verbatim>\<open>close()\<close> on it
  leaves the descriptor open, and later calls on the client socket still reach the
  operating system. The backend socket has no file object: its \<^verbatim>\<open>close()\<close> releases the
  descriptor, and every later call on it raises.
\<close>

fun has_file :: "sock \<Rightarrow> bool" where
  "has_file Client = True"
| "has_file Backend = False"

definition released :: "state \<Rightarrow> sock \<Rightarrow> bool" where
  "released st s = (is_closed st s \<and> \<not> has_file s)"

text \<open>\<^verbatim>\<open>list.remove(x)\<close> removes the first occurrence and raises \<^verbatim>\<open>ValueError\<close> when there is none.\<close>

definition list_remove :: "sock list \<Rightarrow> sock \<Rightarrow> exn + sock list" where
  "list_remove xs x = (if x \<in> set xs then Inr (remove1 x xs) else Inl ValueError)"

text \<open>
  \<^verbatim>\<open>connect\<close> raises when the backend is unreachable. \<^verbatim>\<open>send\<close> writes at most as many bytes
  as the kernel takes and returns their number, which the handler ignores. \<^verbatim>\<open>recv(n)\<close>
  returns at most \<open>n\<close> of the waiting bytes. \<^verbatim>\<open>sendall\<close> writes everything or raises.
  Every call on a socket whose descriptor has been released raises \<^verbatim>\<open>OSError\<close>.
\<close>

definition connect :: "world \<Rightarrow> state \<Rightarrow> exn option \<times> state" where
  "connect w st =
     (let st1 = st\<lparr>trace := trace st @ [Connect]\<rparr>
      in if connect_ok w then (None, st1) else (Some OSError, st1))"

definition send :: "world \<Rightarrow> sock \<Rightarrow> bytes \<Rightarrow> state \<Rightarrow> exn option \<times> state" where
  "send w s data st =
     (let st1 = st\<lparr>nsend := Suc (nsend st)\<rparr>
      in if released st s then (Some OSError, st1)
         else case send_room w (nsend st) of
                None \<Rightarrow> (Some OSError, st1)
              | Some n \<Rightarrow> (None, st1\<lparr>wire := (wire st)(s := wire st s @ take n data)\<rparr>))"

definition recv :: "poll \<Rightarrow> sock \<Rightarrow> nat \<Rightarrow> state \<Rightarrow> (exn + bytes) \<times> state" where
  "recv p s bufsize st =
     (let st1 = st\<lparr>trace := trace st @ [Recv s]\<rparr>
      in if released st s then (Inl OSError, st1)
         else case incoming p s of
                RecvError \<Rightarrow> (Inl OSError, st1)
              | RecvData buf \<Rightarrow> (Inr (take bufsize buf), st1))"

definition sendall :: "poll \<Rightarrow> sock \<Rightarrow> bytes \<Rightarrow> state \<Rightarrow> exn option \<times> state" where
  "sendall p s data st =
     (if released st s then (Some OSError, st)
      else case sendall_error p s of
             None \<Rightarrow> (None, st\<lparr>wire := (wire st)(s := wire st s @ data)\<rparr>)
           | Some n \<Rightarrow> (Some OSError, st\<lparr>wire := (wire st)(s := wire st s @ take n data)\<rparr>))"

text \<open>
  \<^verbatim>\<open>select.select(sockets, [], sockets, 1.0)\<close> returns the readable and the exceptional
  sockets among those passed, in the order passed; it raises \<^verbatim>\<open>ValueError\<close> on a socket
  whose descriptor has been released. A pass in which nothing is ready is the one-second
  timeout.
\<close>

definition select :: "poll \<Rightarrow> sock list \<Rightarrow> sock list \<Rightarrow> state \<Rightarrow> exn + sock list \<times> sock list" where
  "select p rlist xlist st =
     (if list_ex (released st) (rlist @ xlist) then Inl ValueError
      else Inr (filter (readable_now p) rlist, filter (exceptional_now p) xlist))"

subsection \<open>The relay loop\<close>

text \<open>\<^verbatim>\<open>for s in exceptional: sockets.remove(s); s.close()\<close>\<close>

fun for_exceptional :: "sock list \<Rightarrow> state \<Rightarrow> exn option \<times> state" where
  "for_exceptional [] st = (None, st)"
| "for_exceptional (s # rest) st =
     (case list_remove (sockets st) s of
        Inl e \<Rightarrow> (Some e, st)
      | Inr xs \<Rightarrow> for_exceptional rest (close s (st\<lparr>sockets := xs\<rparr>)))"

text \<open>
  The two branches of \<^verbatim>\<open>if data:\<close>. The local \<^verbatim>\<open>other\<close> is assigned in the branch that has
  data (\<^verbatim>\<open>other = backend if s is client else client\<close>) and only read in the branch that
  has none, where reading it unassigned raises \<^verbatim>\<open>UnboundLocalError\<close>.
\<close>

definition forward_to_other :: "poll \<Rightarrow> sock \<Rightarrow> bytes \<Rightarrow> state \<Rightarrow> exn option \<times> state" where
  "forward_to_other p s data st =
     (let partner = (if s = Client then Backend else Client)
      in sendall p partner data (st\<lparr>other := Some partner\<rparr>))"

definition socket_closed :: "sock \<Rightarrow> state \<Rightarrow> exn option \<times> state" where
  "socket_closed s st =
     (case list_remove (sockets st) s of
        Inl e \<Rightarrow> (Some e, st)
      | Inr xs \<Rightarrow>
          (let st1 = close s (st\<lparr>sockets := xs\<rparr>)
           in case other st1 of
                None \<Rightarrow> (Some UnboundLocalError, st1)
              | Some partner \<Rightarrow>
                  if partner \<in> set (sockets st1) then
                    (case list_remove (sockets st1) partner of
                       Inl e \<Rightarrow> (Some e, st1)
                     | Inr ys \<Rightarrow> (None, close partner (st1\<lparr>sockets := ys\<rparr>)))
                  else (None, st1)))"

text \<open>The \<^verbatim>\<open>try\<close> block run for one readable socket \<open>s\<close>.\<close>

definition readable_try :: "poll \<Rightarrow> sock \<Rightarrow> state \<Rightarrow> exn option \<times> state" where
  "readable_try p s st =
     (case recv p s 4096 st of
        (Inl e, st1) \<Rightarrow> (Some e, st1)
      | (Inr data, st1) \<Rightarrow>
          if data \<noteq> [] then forward_to_other p s data st1 else socket_closed s st1)"

text \<open>
  The clause \<^verbatim>\<open>except socket.error\<close>: the socket that was being read is removed and closed
  if it is still watched.
\<close>

definition error_on_socket :: "sock \<Rightarrow> state \<Rightarrow> exn option \<times> state" where
  "error_on_socket s st =
     (if s \<in> set (sockets st) then
        (case list_remove (sockets st) s of
           Inl e \<Rightarrow> (Some e, st)
         | Inr xs \<Rightarrow> (None, close s (st\<lparr>sockets := xs\<rparr>)))
      else (None, st))"

text \<open>The \<^verbatim>\<open>try\<close> statement: of the three exceptions only \<^verbatim>\<open>OSError\<close> is caught.\<close>

definition readable_one :: "poll \<Rightarrow> sock \<Rightarrow> state \<Rightarrow> exn option \<times> state" where
  "readable_one p s st =
     (case readable_try p s st of
        (Some OSError, st1) \<Rightarrow> error_on_socket s st1
      | (Some e, st1) \<Rightarrow> (Some e, st1)
      | (None, st1) \<Rightarrow> (None, st1))"

fun for_readable :: "poll \<Rightarrow> sock list \<Rightarrow> state \<Rightarrow> exn option \<times> state" where
  "for_readable p [] st = (None, st)"
| "for_readable p (s # rest) st =
     (case readable_one p s st of
        (Some e, st1) \<Rightarrow> (Some e, st1)
      | (None, st1) \<Rightarrow> for_readable p rest st1)"

text \<open>One pass of the body of \<^verbatim>\<open>while sockets:\<close>.\<close>

definition relay_pass :: "poll \<Rightarrow> state \<Rightarrow> exn option \<times> state" where
  "relay_pass p st =
     (case select p (sockets st) (sockets st) st of
        Inl e \<Rightarrow> (Some e, st)
      | Inr (readable, exceptional) \<Rightarrow>
          (case for_exceptional exceptional st of
             (Some e, st1) \<Rightarrow> (Some e, st1)
           | (None, st1) \<Rightarrow> for_readable p readable st1))"

text \<open>
  The loop: it has \<open>Exited\<close> when \<^verbatim>\<open>sockets\<close> is empty at the loop test, it has \<open>Raised\<close> when
  an exception left its body, and it is still \<open>Running\<close> when the passes given are used up
  and a socket is still watched.
\<close>

datatype outcome = Exited | Raised exn | Running

fun relay_loop :: "poll list \<Rightarrow> state \<Rightarrow> outcome \<times> state" where
  "relay_loop [] st = (if sockets st = [] then (Exited, st) else (Running, st))"
| "relay_loop (p # ps) st =
     (if sockets st = [] then (Exited, st)
      else case relay_pass p st of
             (Some e, st1) \<Rightarrow> (Raised e, st1)
           | (None, st1) \<Rightarrow> relay_loop ps st1)"

subsection \<open>\<^verbatim>\<open>handle_websocket\<close>\<close>

text \<open>An f-string prints \<^verbatim>\<open>None\<close> as the text None.\<close>

definition format_value :: "string option \<Rightarrow> string" where
  "format_value v = (case v of None \<Rightarrow> ''None'' | Some s \<Rightarrow> s)"

definition header_line :: "message \<Rightarrow> string \<Rightarrow> string" where
  "header_line hs header = header @ '': '' @ format_value (headers_getitem hs header) @ CRLF"

definition request_line :: "request \<Rightarrow> string" where
  "request_line req = command req @ '' '' @ path req @ '' '' @ request_version req @ CRLF"

text \<open>\<^verbatim>\<open>for header in self.headers: backend.send(header_line.encode())\<close>\<close>

fun forward_headers :: "world \<Rightarrow> message \<Rightarrow> string list \<Rightarrow> state \<Rightarrow> exn option \<times> state" where
  "forward_headers w hs [] st = (None, st)"
| "forward_headers w hs (header # rest) st =
     (case send w Backend (encode (header_line hs header)) st of
        (Some e, st1) \<Rightarrow> (Some e, st1)
      | (None, st1) \<Rightarrow> forward_headers w hs rest st1)"

text \<open>The handshake forwarding, lines 34 to 41 of the script.\<close>

definition forward_request :: "world \<Rightarrow> request \<Rightarrow> state \<Rightarrow> exn option \<times> state" where
  "forward_request w req st =
     (case send w Backend (encode (request_line req)) st of
        (Some e, st1) \<Rightarrow> (Some e, st1)
      | (None, st1) \<Rightarrow>
          (case forward_headers w (headers req) (headers_iter (headers req)) st1 of
             (Some e, st2) \<Rightarrow> (Some e, st2)
           | (None, st2) \<Rightarrow> send w Backend CRLF st2))"

text \<open>
  The body of the outer \<^verbatim>\<open>try\<close>. \<^verbatim>\<open>setblocking(0)\<close> changes no variable of the model: in
  non-blocking mode a \<^verbatim>\<open>recv\<close> or \<^verbatim>\<open>sendall\<close> that would block raises, which the oracle
  covers. After the loop \<^verbatim>\<open>self.close_connection = False\<close>.
\<close>

definition websocket_try :: "world \<Rightarrow> request \<Rightarrow> state \<Rightarrow> outcome \<times> state" where
  "websocket_try w req st =
     (case connect w st of
        (Some e, st1) \<Rightarrow> (Raised e, st1)
      | (None, st1) \<Rightarrow>
          (case forward_request w req st1 of
             (Some e, st2) \<Rightarrow> (Raised e, st2)
           | (None, st2) \<Rightarrow>
               (case relay_loop (rounds w) (st2\<lparr>sockets := [Client, Backend]\<rparr>) of
                  (Exited, st3) \<Rightarrow> (Exited, st3\<lparr>close_connection := False\<rparr>)
                | (Raised e, st3) \<Rightarrow> (Raised e, st3)
                | (Running, st3) \<Rightarrow> (Running, st3))))"

text \<open>
  \<^verbatim>\<open>except Exception\<close> catches all three exceptions; the handler then calls
  \<^verbatim>\<open>self.send_error(502, "Bad Gateway")\<close> and closes nothing. \<^verbatim>\<open>send_error\<close> of
  \<^verbatim>\<open>http.server\<close> writes the error response with a \<^verbatim>\<open>Connection: close\<close> header, which sets
  \<^verbatim>\<open>self.close_connection\<close>; the base handler closes the client connection after a request
  that leaves this attribute set.
\<close>

datatype result = Completed | BadGateway exn | Relaying

definition handle_websocket :: "world \<Rightarrow> request \<Rightarrow> state \<Rightarrow> result \<times> state" where
  "handle_websocket w req st =
     (case websocket_try w req st of
        (Exited, st1) \<Rightarrow> (Completed, st1)
      | (Running, st1) \<Rightarrow> (Relaying, st1)
      | (Raised e, st1) \<Rightarrow>
          (BadGateway e, st1\<lparr>trace := trace st1 @ [SendError 502], close_connection := True\<rparr>))"

text \<open>
  The byte sequence of the specification's handshake replay: the request line, each header
  of the captured list as a line of its own name and its own value, and an empty line.
\<close>

definition replay_bytes :: "request \<Rightarrow> bytes" where
  "replay_bytes req =
     encode (request_line req)
       @ concat (map (\<lambda>h. encode (fst h @ '': '' @ snd h @ CRLF)) (headers req))
       @ CRLF"

subsection \<open>Concrete requests and oracles\<close>

definition upgrade_request :: "string \<Rightarrow> request" where
  "upgrade_request v =
     \<lparr>command = ''GET'', path = ''/ws'', request_version = ''HTTP/1.1'',
      headers = [(''Host'', ''game.example''), (''upgrade'', v)]\<rparr>"

definition plain_request :: request where
  "plain_request =
     \<lparr>command = ''GET'', path = ''/index.html'', request_version = ''HTTP/1.1'',
      headers = [(''Host'', ''game.example'')]\<rparr>"

definition quiet :: poll where
  "quiet =
     \<lparr>readable_now = (\<lambda>s. False), exceptional_now = (\<lambda>s. False),
      incoming = (\<lambda>s. RecvError), sendall_error = (\<lambda>s. None)\<rparr>"

definition data_poll :: "sock \<Rightarrow> bytes \<Rightarrow> poll" where
  "data_poll s buf = quiet\<lparr>readable_now := (\<lambda>x. x = s), incoming := (\<lambda>x. RecvData buf)\<rparr>"

definition eof_poll :: "sock \<Rightarrow> poll" where
  "eof_poll s = data_poll s []"

definition exceptional_poll :: "sock \<Rightarrow> poll" where
  "exceptional_poll s = quiet\<lparr>exceptional_now := (\<lambda>x. x = s)\<rparr>"

definition reachable_backend :: "poll list \<Rightarrow> world" where
  "reachable_backend ps = \<lparr>connect_ok = True, send_room = (\<lambda>i. Some 65536), rounds = ps\<rparr>"

definition refusing_backend :: world where
  "refusing_backend = \<lparr>connect_ok = False, send_room = (\<lambda>i. Some 65536), rounds = []\<rparr>"

definition stalled_backend :: world where
  "stalled_backend =
     \<lparr>connect_ok = True, send_room = (\<lambda>i. if i = 0 then Some 65536 else None), rounds = []\<rparr>"

definition short_session :: world where
  "short_session = reachable_backend [data_poll Client ''ping'', eof_poll Client]"

definition failing_write_poll :: poll where
  "failing_write_poll = (data_poll Client ''ping'')\<lparr>sendall_error := (\<lambda>s. Some 2)\<rparr>"

definition eof_both :: poll where
  "eof_both = quiet\<lparr>readable_now := (\<lambda>x. True), incoming := (\<lambda>x. RecvData [])\<rparr>"

definition duplicate_header_request :: request where
  "duplicate_header_request =
     \<lparr>command = ''GET'', path = ''/ws'', request_version = ''HTTP/1.1'',
      headers = [(''Upgrade'', ''websocket''),
                 (''Sec-WebSocket-Protocol'', ''chat''),
                 (''Sec-WebSocket-Protocol'', ''superchat'')]\<rparr>"

definition short_writes :: world where
  "short_writes = \<lparr>connect_ok = True, send_room = (\<lambda>i. Some 8), rounds = []\<rparr>"

definition exceptional_eof_poll :: "sock \<Rightarrow> poll" where
  "exceptional_eof_poll s = (eof_poll s)\<lparr>exceptional_now := (\<lambda>x. x = s)\<rparr>"

subsection \<open>Notions of the specification\<close>

text \<open>
  The fixed pairing of the two sockets of a session, and the state in which a relay loop
  runs: no socket is watched twice, and a socket is watched exactly as long as it has not
  been closed.
\<close>

fun partner_of :: "sock \<Rightarrow> sock" where
  "partner_of Client = Backend"
| "partner_of Backend = Client"

definition watched_open :: "state \<Rightarrow> bool" where
  "watched_open st =
     (distinct (sockets st)
      \<and> (Client \<in> set (sockets st)) = (\<not> is_closed st Client)
      \<and> (Backend \<in> set (sockets st)) = (\<not> is_closed st Backend))"

definition relay_start :: state where
  "relay_start = (initial True)\<lparr>sockets := [Client, Backend], trace := [Connect], nsend := 4\<rparr>"

text \<open>
  A step of the loop that tears down the socket \<open>s\<close> and nothing else: no exception
  leaves it, \<open>s\<close> is removed from the watched list and closed, and the partner of \<open>s\<close> is
  watched and closed after the step exactly as it was before.
\<close>

definition drops_only :: "sock \<Rightarrow> state \<Rightarrow> exn option \<times> state \<Rightarrow> bool" where
  "drops_only s st r =
     (fst r = None
      \<and> sockets (snd r) = remove1 s (sockets st)
      \<and> s \<notin> set (sockets (snd r))
      \<and> is_closed (snd r) s
      \<and> (partner_of s \<in> set (sockets (snd r))) = (partner_of s \<in> set (sockets st))
      \<and> is_closed (snd r) (partner_of s) = is_closed st (partner_of s))"



section \<open>Properties\<close>

subsection \<open>Characters and header lookup\<close>

lemma of_char_lower_Char:
  "of_char (lower_char (Char b0 b1 b2 b3 b4 b5 b6 b7)) =
     (if is_upper (Char b0 b1 b2 b3 b4 b5 b6 b7)
      then of_char (Char b0 b1 b2 b3 b4 b5 b6 b7) + 32
      else (of_char (Char b0 b1 b2 b3 b4 b5 b6 b7) :: nat))"
  by (cases b0; cases b1; cases b2; cases b3; cases b4; cases b5; cases b6; cases b7;
      simp add: lower_char_def is_upper_def)

lemma of_char_lower:
  "of_char (lower_char c) = (if is_upper c then of_char c + 32 else (of_char c :: nat))"
  by (cases c) (simp only: of_char_lower_Char)

lemma lower_char_eq_iff:
  assumes "97 \<le> (of_char b :: nat)" and "(of_char b :: nat) \<le> 122"
  shows "lower_char a = b \<longleftrightarrow> ci_eq_char a b"
proof -
  have "lower_char a = b \<longleftrightarrow> (of_char (lower_char a) :: nat) = of_char b"
    by simp
  also have "\<dots> \<longleftrightarrow> ci_eq_char a b"
    using assms unfolding of_char_lower ci_eq_char_def is_upper_def Let_def by auto
  finally show ?thesis .
qed

lemma str_lower_eq_iff:
  assumes "\<forall>b \<in> set w. 97 \<le> (of_char b :: nat) \<and> (of_char b :: nat) \<le> 122"
  shows "str_lower v = w \<longleftrightarrow> ci_match v w"
proof -
  have "str_lower v = w \<longleftrightarrow> list_all2 (\<lambda>a b. lower_char a = b) v w"
    unfolding str_lower_def by (simp add: list.rel_eq list.rel_map(1) flip: list.rel_eq)
  also have "\<dots> \<longleftrightarrow> list_all2 ci_eq_char v w"
  proof
    assume "list_all2 (\<lambda>a b. lower_char a = b) v w"
    then show "list_all2 ci_eq_char v w"
    proof (rule list.rel_mono_strong)
      fix a b assume "b \<in> set w" and "lower_char a = b"
      with assms show "ci_eq_char a b" by (simp add: lower_char_eq_iff)
    qed
  next
    assume "list_all2 ci_eq_char v w"
    then show "list_all2 (\<lambda>a b. lower_char a = b) v w"
    proof (rule list.rel_mono_strong)
      fix a b assume "b \<in> set w" and "ci_eq_char a b"
      with assms show "lower_char a = b" by (simp add: lower_char_eq_iff)
    qed
  qed
  finally show ?thesis by (simp add: ci_match_def)
qed

lemma headers_get_filter:
  "headers_get hs name failobj found =
     (case filter (\<lambda>h. str_lower (fst h) = str_lower name) hs of
        [] \<Rightarrow> failobj
      | h # _ \<Rightarrow> found (snd h))"
  by (induction hs) auto

lemma lower_Upgrade: "str_lower ''Upgrade'' = ''upgrade''"
  by (simp add: str_lower_def lower_char_def is_upper_def)

lemma headers_get_Upgrade:
  "headers_get (headers req) ''Upgrade'' '''' (\<lambda>v. v) = upgrade_value req"
  by (simp add: headers_get_filter upgrade_value_def lower_Upgrade)

lemma length_str_lower: "length (str_lower v) = length v"
  by (simp add: str_lower_def)

lemmas lower_eval = str_lower_def lower_char_def is_upper_def

subsection \<open>The classifier\<close>

text \<open>
  Claim C4. A request whose Upgrade header value matches \<open>websocket\<close> case-insensitively is
  given to the relay and not to the static file handler, and every other request is given
  to the static handler and not to the relay: \<^const>\<open>do_GET\<close> returns the one handler it
  invokes, and that handler is \<^const>\<open>Relay\<close> exactly for the matching requests.
\<close>

theorem do_GET_classifies:
  "do_GET req = (if ci_match (upgrade_value req) ''websocket'' then Relay else Static)"
proof -
  have "str_lower (upgrade_value req) = ''websocket''
          \<longleftrightarrow> ci_match (upgrade_value req) ''websocket''"
    by (rule str_lower_eq_iff) simp
  then show ?thesis
    by (simp add: do_GET_def headers_get_Upgrade)
qed

theorem do_GET_classifies_witness:
  "ci_match (upgrade_value (upgrade_request ''WebSocket'')) ''websocket''
   \<and> do_GET (upgrade_request ''WebSocket'') = Relay
   \<and> \<not> ci_match (upgrade_value plain_request) ''websocket''
   \<and> do_GET plain_request = Static"
  using do_GET_classifies [of "upgrade_request ''WebSocket''"] do_GET_classifies [of plain_request]
  by (simp add: upgrade_request_def plain_request_def upgrade_value_def ci_match_def
      ci_eq_char_def lower_eval)

text \<open>
  Claim C10. A request without an Upgrade header is classified on the empty string and
  served statically; the relay is chosen exactly when the lower-cased value returned by
  \<^verbatim>\<open>self.headers.get('Upgrade', '')\<close> is the string \<open>websocket\<close>; so a value that has
  anything before or after the word, such as \<open>websocket, keep-alive\<close>, is served statically.
\<close>

theorem do_GET_exact_value:
  "(list_all (\<lambda>h. str_lower (fst h) \<noteq> ''upgrade'') (headers req) \<longrightarrow>
      headers_get (headers req) ''Upgrade'' '''' (\<lambda>v. v) = '''' \<and> do_GET req = Static)
   \<and> (do_GET req = Relay \<longleftrightarrow>
        str_lower (headers_get (headers req) ''Upgrade'' '''' (\<lambda>v. v)) = ''websocket'')
   \<and> (do_GET req = Static \<longleftrightarrow>
        str_lower (headers_get (headers req) ''Upgrade'' '''' (\<lambda>v. v)) \<noteq> ''websocket'')
   \<and> (headers_get (headers req) ''Upgrade'' '''' (\<lambda>v. v) = pre @ word @ post \<and>
        str_lower word = ''websocket'' \<and> pre @ post \<noteq> [] \<longrightarrow> do_GET req = Static)"
proof (intro conjI impI)
  assume none: "list_all (\<lambda>h. str_lower (fst h) \<noteq> ''upgrade'') (headers req)"
  then have "filter (\<lambda>h. str_lower (fst h) = ''upgrade'') (headers req) = []"
    by (simp add: list_all_iff filter_empty_conv)
  then show empty: "headers_get (headers req) ''Upgrade'' '''' (\<lambda>v. v) = ''''"
    by (simp add: headers_get_filter lower_Upgrade)
  show "do_GET req = Static"
    by (simp add: do_GET_def empty str_lower_def)
next
  show "do_GET req = Relay \<longleftrightarrow>
        str_lower (headers_get (headers req) ''Upgrade'' '''' (\<lambda>v. v)) = ''websocket''"
    by (simp add: do_GET_def)
next
  show "do_GET req = Static \<longleftrightarrow>
        str_lower (headers_get (headers req) ''Upgrade'' '''' (\<lambda>v. v)) \<noteq> ''websocket''"
    by (simp add: do_GET_def)
next
  assume padded: "headers_get (headers req) ''Upgrade'' '''' (\<lambda>v. v) = pre @ word @ post \<and>
        str_lower word = ''websocket'' \<and> pre @ post \<noteq> []"
  then have "length word = 9"
    using length_str_lower [of word] by simp
  with padded have "length (str_lower (pre @ word @ post)) \<noteq> 9"
    by (auto simp: length_str_lower)
  then have "str_lower (pre @ word @ post) \<noteq> ''websocket''"
    by auto
  with padded show "do_GET req = Static"
    by (simp add: do_GET_def)
qed

theorem do_GET_exact_value_witness:
  "list_all (\<lambda>h. str_lower (fst h) \<noteq> ''upgrade'') (headers plain_request)
   \<and> do_GET plain_request = Static
   \<and> headers_get (headers (upgrade_request ''websocket, keep-alive'')) ''Upgrade'' '''' (\<lambda>v. v)
       = [] @ ''websocket'' @ '', keep-alive''
   \<and> str_lower ''websocket'' = ''websocket''
   \<and> do_GET (upgrade_request ''websocket, keep-alive'') = Static
   \<and> do_GET (upgrade_request ''websocket '') = Static"
  using do_GET_exact_value [of plain_request "[]" "[]" "[]"]
    do_GET_exact_value [of "upgrade_request ''websocket, keep-alive''" "[]" "''websocket''" "'', keep-alive''"]
    do_GET_exact_value [of "upgrade_request ''websocket ''" "[]" "''websocket''" "'' ''"]
  by (simp add: upgrade_request_def plain_request_def lower_eval)

subsection \<open>The relay keeps watched sockets open and closes the ones it drops\<close>

lemma is_closed_close [simp]: "is_closed (close s st) x \<longleftrightarrow> x = s \<or> is_closed st x"
  by (auto simp: is_closed_def close_def)

lemma sockets_close [simp]: "sockets (close s st) = sockets st"
  by (simp add: close_def)

lemma is_closed_upd [simp]:
  "is_closed (st\<lparr>sockets := xs\<rparr>) x = is_closed st x"
  "is_closed (st\<lparr>other := ot\<rparr>) x = is_closed st x"
  "is_closed (st\<lparr>wire := wi\<rparr>) x = is_closed st x"
  "is_closed (st\<lparr>nsend := k\<rparr>) x = is_closed st x"
  "is_closed (st\<lparr>close_connection := cc\<rparr>) x = is_closed st x"
  by (simp_all add: is_closed_def)

lemma is_closed_Recv [simp]: "is_closed (st\<lparr>trace := trace st @ [Recv s]\<rparr>) x = is_closed st x"
  by (simp add: is_closed_def)

lemma released_upd [simp]:
  "released (st\<lparr>sockets := xs\<rparr>) x = released st x"
  "released (st\<lparr>other := ot\<rparr>) x = released st x"
  "released (st\<lparr>wire := wi\<rparr>) x = released st x"
  "released (st\<lparr>nsend := k\<rparr>) x = released st x"
  "released (st\<lparr>close_connection := cc\<rparr>) x = released st x"
  "released (st\<lparr>trace := trace st @ [Recv s]\<rparr>) x = released st x"
  by (simp_all add: released_def)

lemma not_released [simp]: "\<not> is_closed st s \<Longrightarrow> \<not> released st s"
  by (simp add: released_def)

lemma released_Client [simp]: "\<not> released st Client"
  by (simp add: released_def)

lemma released_Backend [simp]: "released st Backend = is_closed st Backend"
  by (simp add: released_def)

lemma watched_open_iff: "watched_open st \<Longrightarrow> s \<in> set (sockets st) \<longleftrightarrow> \<not> is_closed st s"
  by (cases s) (simp_all add: watched_open_def)

lemma watched_open_remove:
  assumes "watched_open st" and "s \<in> set (sockets st)"
  shows "watched_open (close s (st\<lparr>sockets := remove1 s (sockets st)\<rparr>))"
  using assms by (cases s) (auto simp: watched_open_def)

lemma watched_open_upd [simp]:
  "watched_open (st\<lparr>other := ot\<rparr>) = watched_open st"
  "watched_open (st\<lparr>wire := wi\<rparr>) = watched_open st"
  "watched_open (st\<lparr>trace := trace st @ [Recv s]\<rparr>) = watched_open st"
  by (simp_all add: watched_open_def)

lemma for_exceptional_watched_open:
  "watched_open st \<Longrightarrow> watched_open (snd (for_exceptional xs st))"
proof (induction xs arbitrary: st)
  case Nil
  then show ?case by simp
next
  case (Cons s xs)
  then show ?case
    by (simp add: list_remove_def watched_open_remove)
qed


lemma recv_eq:
  "recv p s n st =
     (if released st s then Inl OSError
      else case incoming p s of RecvError \<Rightarrow> Inl OSError | RecvData buf \<Rightarrow> Inr (take n buf),
      st\<lparr>trace := trace st @ [Recv s]\<rparr>)"
  by (simp add: recv_def Let_def split: recv_result.splits)

lemma sendall_watched_open [simp]:
  "watched_open (snd (sendall p s data st)) = watched_open st"
  by (simp add: sendall_def split: option.splits)

lemma forward_to_other_watched_open [simp]:
  "watched_open (snd (forward_to_other p s data st)) = watched_open st"
  by (simp add: forward_to_other_def Let_def)

lemma socket_closed_watched_open:
  assumes "watched_open st"
  shows "watched_open (snd (socket_closed s st))"
proof (cases "s \<in> set (sockets st)")
  case False
  with assms show ?thesis by (simp add: socket_closed_def list_remove_def)
next
  case True
  let ?st1 = "close s (st\<lparr>sockets := remove1 s (sockets st)\<rparr>)"
  have inv1: "watched_open ?st1"
    using assms True by (rule watched_open_remove)
  show ?thesis
  proof (cases "other ?st1")
    case None
    with True inv1 show ?thesis by (simp add: socket_closed_def list_remove_def Let_def)
  next
    case (Some partner)
    show ?thesis
    proof (cases "partner \<in> set (sockets ?st1)")
      case False
      with True Some inv1 show ?thesis by (simp add: socket_closed_def list_remove_def Let_def)
    next
      case in1: True
      have "watched_open (close partner (?st1\<lparr>sockets := remove1 partner (sockets ?st1)\<rparr>))"
        using inv1 in1 by (rule watched_open_remove)
      with True Some in1 show ?thesis by (simp add: socket_closed_def list_remove_def Let_def)
    qed
  qed
qed

lemma readable_try_watched_open:
  assumes "watched_open st"
  shows "watched_open (snd (readable_try p s st))"
proof -
  let ?st1 = "st\<lparr>trace := trace st @ [Recv s]\<rparr>"
  have inv1: "watched_open ?st1" using assms by simp
  obtain r where r: "recv p s 4096 st = (r, ?st1)"
    by (simp add: recv_eq)
  show ?thesis
  proof (cases r)
    case (Inl e)
    with r inv1 show ?thesis by (simp add: readable_try_def)
  next
    case (Inr data)
    with r inv1 socket_closed_watched_open [OF inv1, of s] show ?thesis
      by (simp add: readable_try_def)
  qed
qed

lemma error_on_socket_watched_open:
  assumes "watched_open st"
  shows "watched_open (snd (error_on_socket s st))"
  using assms watched_open_remove [OF assms, of s]
  by (simp add: error_on_socket_def list_remove_def)

lemma readable_one_watched_open:
  assumes "watched_open st"
  shows "watched_open (snd (readable_one p s st))"
proof -
  obtain r st1 where r: "readable_try p s st = (r, st1)"
    by (cases "readable_try p s st")
  then have inv1: "watched_open st1"
    using readable_try_watched_open [OF assms, of p s] by simp
  show ?thesis
  proof (cases r)
    case None
    with r inv1 show ?thesis by (simp add: readable_one_def)
  next
    case (Some e)
    with r inv1 error_on_socket_watched_open [OF inv1, of s] show ?thesis
      by (cases e) (simp_all add: readable_one_def)
  qed
qed

lemma for_readable_watched_open:
  "watched_open st \<Longrightarrow> watched_open (snd (for_readable p xs st))"
proof (induction xs arbitrary: st)
  case Nil
  then show ?case by simp
next
  case (Cons s xs)
  obtain r st1 where r: "readable_one p s st = (r, st1)"
    by (cases "readable_one p s st")
  then have "watched_open st1"
    using readable_one_watched_open [OF Cons.prems, of p s] by simp
  with r Cons.IH [of st1] show ?case
    by (cases r) simp_all
qed

lemma relay_pass_watched_open:
  assumes "watched_open st"
  shows "watched_open (snd (relay_pass p st))"
proof (cases "select p (sockets st) (sockets st) st")
  case (Inl e)
  with assms show ?thesis by (simp add: relay_pass_def)
next
  case (Inr lists)
  obtain readable exceptional where lists: "lists = (readable, exceptional)"
    by (cases lists)
  obtain r st1 where r: "for_exceptional exceptional st = (r, st1)"
    by (cases "for_exceptional exceptional st")
  then have inv1: "watched_open st1"
    using for_exceptional_watched_open [OF assms, of exceptional] by simp
  show ?thesis
    using Inr lists r inv1 for_readable_watched_open [OF inv1, of p readable]
    by (cases r) (simp_all add: relay_pass_def)
qed

lemma relay_loop_watched_open:
  "watched_open st \<Longrightarrow> watched_open (snd (relay_loop ps st))"
proof (induction ps arbitrary: st)
  case Nil
  then show ?case by simp
next
  case (Cons p ps)
  obtain r st1 where r: "relay_pass p st = (r, st1)"
    by (cases "relay_pass p st")
  then have "watched_open st1"
    using relay_pass_watched_open [OF Cons.prems, of p] by simp
  with r Cons.IH [of st1] Cons.prems show ?case
    by (cases r) simp_all
qed

lemma relay_loop_Exited:
  "fst (relay_loop ps st) = Exited \<Longrightarrow> sockets (snd (relay_loop ps st)) = []"
proof (induction ps arbitrary: st)
  case Nil
  then show ?case by (simp split: if_splits)
next
  case (Cons p ps)
  obtain r st1 where r: "relay_pass p st = (r, st1)"
    by (cases "relay_pass p st")
  with Cons show ?case
    by (cases r) (auto split: if_splits)
qed

subsection \<open>Connect and handshake forwarding\<close>

lemma send_trace [simp]: "trace (snd (send w s data st)) = trace st"
  by (simp add: send_def Let_def split: option.splits)

lemma send_raises: "fst (send w s data st) = Some e \<Longrightarrow> e = OSError"
  by (simp add: send_def Let_def split: option.splits if_splits)

lemma forward_headers_trace [simp]: "trace (snd (forward_headers w hs names st)) = trace st"
proof (induction names arbitrary: st)
  case Nil
  then show ?case by simp
next
  case (Cons header names)
  obtain r st1 where r: "send w Backend (encode (header_line hs header)) st = (r, st1)"
    by (cases "send w Backend (encode (header_line hs header)) st")
  then have "trace st1 = trace st"
    using send_trace [of w Backend "encode (header_line hs header)" st] by simp
  with r Cons.IH [of st1] show ?case
    by (cases r) simp_all
qed

lemma forward_headers_raises:
  "fst (forward_headers w hs names st) = Some e \<Longrightarrow> e = OSError"
proof (induction names arbitrary: st)
  case Nil
  then show ?case by simp
next
  case (Cons header names)
  obtain r st1 where r: "send w Backend (encode (header_line hs header)) st = (r, st1)"
    by (cases "send w Backend (encode (header_line hs header)) st")
  show ?case
  proof (cases r)
    case None
    with r Cons show ?thesis by simp
  next
    case (Some e')
    with r Cons.prems send_raises [of w Backend "encode (header_line hs header)" st e']
    show ?thesis by simp
  qed
qed

lemma forward_request_trace [simp]: "trace (snd (forward_request w req st)) = trace st"
proof -
  obtain r1 st1 where r1: "send w Backend (encode (request_line req)) st = (r1, st1)"
    by (cases "send w Backend (encode (request_line req)) st")
  then have t1: "trace st1 = trace st"
    using send_trace [of w Backend "encode (request_line req)" st] by simp
  obtain r2 st2 where r2: "forward_headers w (headers req) (headers_iter (headers req)) st1 = (r2, st2)"
    by (cases "forward_headers w (headers req) (headers_iter (headers req)) st1")
  then have t2: "trace st2 = trace st1"
    using forward_headers_trace [of w "headers req" "headers_iter (headers req)" st1] by simp
  show ?thesis
    using r1 r2 t1 t2 by (cases r1; cases r2) (simp_all add: forward_request_def)
qed

lemma forward_request_raises:
  assumes "fst (forward_request w req st) = Some e"
  shows "e = OSError"
proof -
  obtain r1 st1 where r1: "send w Backend (encode (request_line req)) st = (r1, st1)"
    by (cases "send w Backend (encode (request_line req)) st")
  obtain r2 st2 where r2: "forward_headers w (headers req) (headers_iter (headers req)) st1 = (r2, st2)"
    by (cases "forward_headers w (headers req) (headers_iter (headers req)) st1")
  show ?thesis
  proof (cases r1)
    case (Some e1)
    with assms r1 send_raises [of w Backend "encode (request_line req)" st e1]
    show ?thesis by (simp add: forward_request_def)
  next
    case None
    show ?thesis
    proof (cases r2)
      case (Some e2)
      with assms r1 r2 None
        forward_headers_raises [of w "headers req" "headers_iter (headers req)" st1 e2]
      show ?thesis by (simp add: forward_request_def)
    next
      case n2: None
      with assms r1 r2 None send_raises [of w Backend CRLF st2 e]
      show ?thesis by (simp add: forward_request_def)
    qed
  qed
qed

lemma connect_eq:
  "connect w st = (if connect_ok w then None else Some OSError, st\<lparr>trace := trace st @ [Connect]\<rparr>)"
  by (simp add: connect_def Let_def)

subsection \<open>Backend unreachable\<close>

text \<open>
  Claim C5. When \<^verbatim>\<open>backend.connect\<close> fails, the handler answers with the gateway error 502
  and leaves \<^verbatim>\<open>close_connection\<close> set, so that the client connection is closed after the
  request; it has made exactly one connect attempt and nothing else: the calls of the
  invocation are one \<^const>\<open>Connect\<close> and one \<^const>\<open>SendError\<close>, and no byte was written to
  either socket.
\<close>

theorem connect_failure_is_bad_gateway:
  assumes "\<not> connect_ok w"
  shows "fst (handle_websocket w req st) = BadGateway OSError
         \<and> trace (snd (handle_websocket w req st)) = trace st @ [Connect, SendError 502]
         \<and> close_connection (snd (handle_websocket w req st))
         \<and> wire (snd (handle_websocket w req st)) = wire st
         \<and> nsend (snd (handle_websocket w req st)) = nsend st"
  using assms by (simp add: handle_websocket_def websocket_try_def connect_eq)

theorem connect_failure_is_bad_gateway_witness:
  "\<not> connect_ok refusing_backend
   \<and> fst (handle_websocket refusing_backend (upgrade_request ''websocket'') (initial False))
       = BadGateway OSError
   \<and> trace (snd (handle_websocket refusing_backend (upgrade_request ''websocket'') (initial False)))
       = [Connect, SendError 502]
   \<and> close_connection
       (snd (handle_websocket refusing_backend (upgrade_request ''websocket'') (initial False)))"
  using connect_failure_is_bad_gateway
    [of refusing_backend "upgrade_request ''websocket''" "initial False"]
  by (simp add: refusing_backend_def initial_def)

lemma relay_start_state_watched_open:
  "watched_open (st\<lparr>sockets := [Client, Backend]\<rparr>) \<longleftrightarrow> \<not> is_closed st Client \<and> \<not> is_closed st Backend"
  by (auto simp: watched_open_def)


subsection \<open>Exit paths\<close>

lemma is_closed_trace_cong: "trace st' = trace st \<Longrightarrow> is_closed st' = is_closed st"
  by (auto simp: is_closed_def fun_eq_iff)

lemma is_closed_Connect [simp]:
  "is_closed (st\<lparr>trace := trace st @ [Connect]\<rparr>) x = is_closed st x"
  by (simp add: is_closed_def)

lemmas run_eval =
  handle_websocket_def websocket_try_def connect_def forward_request_def send_def
  request_line_def header_line_def headers_iter_def headers_getitem_def format_value_def
  encode_def utf8_char_def CRLF_def str_lower_def lower_char_def is_upper_def
  relay_pass_def select_def readable_one_def readable_try_def forward_to_other_def
  socket_closed_def error_on_socket_def recv_def sendall_def list_remove_def close_def
  released_def is_closed_def initial_def Let_def

lemmas oracle_eval =
  quiet_def data_poll_def eof_poll_def exceptional_poll_def reachable_backend_def
  refusing_backend_def stalled_backend_def upgrade_request_def plain_request_def

lemma completed_run:
  assumes "fst (handle_websocket w req st) = Completed"
  obtains st2 st3 where "forward_request w req (st\<lparr>trace := trace st @ [Connect]\<rparr>) = (None, st2)"
    and "relay_loop (rounds w) (st2\<lparr>sockets := [Client, Backend]\<rparr>) = (Exited, st3)"
    and "snd (handle_websocket w req st) = st3\<lparr>close_connection := False\<rparr>"
proof -
  let ?st1 = "st\<lparr>trace := trace st @ [Connect]\<rparr>"
  obtain r2 st2 where r2: "forward_request w req ?st1 = (r2, st2)"
    by (cases "forward_request w req ?st1")
  obtain r3 st3 where r3: "relay_loop (rounds w) (st2\<lparr>sockets := [Client, Backend]\<rparr>) = (r3, st3)"
    by (cases "relay_loop (rounds w) (st2\<lparr>sockets := [Client, Backend]\<rparr>)")
  from assms have ok: "connect_ok w"
    by (auto simp: handle_websocket_def websocket_try_def connect_eq split: if_splits)
  from assms ok r2 have none: "r2 = None"
    by (cases r2) (simp_all add: handle_websocket_def websocket_try_def connect_eq)
  from assms ok r2 none r3 have ex: "r3 = Exited"
    by (cases r3) (simp_all add: handle_websocket_def websocket_try_def connect_eq)
  from ok r2 none r3 ex have "snd (handle_websocket w req st) = st3\<lparr>close_connection := False\<rparr>"
    by (simp add: handle_websocket_def websocket_try_def connect_eq)
  with r2 none r3 ex that show thesis by simp
qed

text \<open>
  Claim C7, as amended. When the relay invocation completes normally, that is when the
  loop has exited on an empty watched set, both the client socket and the backend socket
  have been closed. The handler has no cleanup on its error path: when the connect has
  succeeded and the handshake forwarding fails, the invocation ends with the gateway
  error and its only calls are the connect and the error response, so that no socket
  has been closed.
\<close>

theorem completion_closes_both:
  "(\<not> is_closed st Client \<and> \<not> is_closed st Backend \<and> fst (handle_websocket w req st) = Completed \<longrightarrow>
      is_closed (snd (handle_websocket w req st)) Client
      \<and> is_closed (snd (handle_websocket w req st)) Backend
      \<and> sockets (snd (handle_websocket w req st)) = [])
   \<and> (connect_ok w \<and> fst (forward_request w req (snd (connect w st))) \<noteq> None \<longrightarrow>
      fst (handle_websocket w req st) = BadGateway OSError
      \<and> trace (snd (handle_websocket w req st)) = trace st @ [Connect, SendError 502])"
proof (intro conjI impI)
  assume a: "\<not> is_closed st Client \<and> \<not> is_closed st Backend \<and> fst (handle_websocket w req st) = Completed"
  then obtain st2 st3 where
    fwd: "forward_request w req (st\<lparr>trace := trace st @ [Connect]\<rparr>) = (None, st2)"
    and loop: "relay_loop (rounds w) (st2\<lparr>sockets := [Client, Backend]\<rparr>) = (Exited, st3)"
    and fin: "snd (handle_websocket w req st) = st3\<lparr>close_connection := False\<rparr>"
    by (auto elim: completed_run)
  from fwd have "trace st2 = trace st @ [Connect]"
    using forward_request_trace [of w req "st\<lparr>trace := trace st @ [Connect]\<rparr>"] by simp
  then have "is_closed st2 = is_closed st"
    by (auto simp: is_closed_def fun_eq_iff)
  with a have "watched_open (st2\<lparr>sockets := [Client, Backend]\<rparr>)"
    by (simp add: relay_start_state_watched_open)
  then have inv3: "watched_open st3"
    using relay_loop_watched_open [of "st2\<lparr>sockets := [Client, Backend]\<rparr>" "rounds w"] loop by simp
  have empty: "sockets st3 = []"
    using relay_loop_Exited [of "rounds w" "st2\<lparr>sockets := [Client, Backend]\<rparr>"] loop by simp
  from inv3 empty have "is_closed st3 Client" and "is_closed st3 Backend"
    by (simp_all add: watched_open_def)
  with fin empty show "is_closed (snd (handle_websocket w req st)) Client"
    and "is_closed (snd (handle_websocket w req st)) Backend"
    and "sockets (snd (handle_websocket w req st)) = []"
    by simp_all
next
  assume b: "connect_ok w \<and> fst (forward_request w req (snd (connect w st))) \<noteq> None"
  let ?st1 = "st\<lparr>trace := trace st @ [Connect]\<rparr>"
  obtain r2 st2 where r2: "forward_request w req ?st1 = (r2, st2)"
    by (cases "forward_request w req ?st1")
  with b obtain e where e: "r2 = Some e"
    by (auto simp: connect_eq)
  then have os: "e = OSError"
    using forward_request_raises [of w req ?st1 e] r2 by simp
  have t2: "trace st2 = trace st @ [Connect]"
    using forward_request_trace [of w req ?st1] r2 by simp
  from b r2 e os show "fst (handle_websocket w req st) = BadGateway OSError"
    by (simp add: handle_websocket_def websocket_try_def connect_eq)
  from b r2 e os t2 show "trace (snd (handle_websocket w req st)) = trace st @ [Connect, SendError 502]"
    by (simp add: handle_websocket_def websocket_try_def connect_eq)
qed

text \<open>
  The claim C7 as stated fails: with a backend that accepts the connection and the request
  line and then fails the next \<^verbatim>\<open>send\<close>, the invocation ends with the gateway error and
  neither the backend socket nor the client socket has been closed.
\<close>

theorem backend_left_open_counterexample:
  "fst (handle_websocket stalled_backend (upgrade_request ''websocket'') (initial True))
     = BadGateway OSError
   \<and> \<not> is_closed (snd (handle_websocket stalled_backend (upgrade_request ''websocket'') (initial True)))
         Backend
   \<and> \<not> is_closed (snd (handle_websocket stalled_backend (upgrade_request ''websocket'') (initial True)))
         Client"
  by (simp add: run_eval oracle_eval)

theorem completion_closes_both_witness:
  "\<not> is_closed (initial True) Client \<and> \<not> is_closed (initial True) Backend
   \<and> fst (handle_websocket short_session (upgrade_request ''websocket'') (initial True)) = Completed
   \<and> is_closed (snd (handle_websocket short_session (upgrade_request ''websocket'') (initial True))) Client
   \<and> is_closed (snd (handle_websocket short_session (upgrade_request ''websocket'') (initial True))) Backend
   \<and> connect_ok stalled_backend
   \<and> fst (forward_request stalled_backend (upgrade_request ''websocket'')
             (snd (connect stalled_backend (initial True)))) \<noteq> None
   \<and> trace (snd (handle_websocket stalled_backend (upgrade_request ''websocket'') (initial True)))
        = [Connect, SendError 502]"
  using completion_closes_both [of "initial True" short_session "upgrade_request ''websocket''"]
    completion_closes_both [of "initial True" stalled_backend "upgrade_request ''websocket''"]
  by (simp add: short_session_def run_eval oracle_eval)

subsection \<open>Socket errors inside the loop\<close>

lemma partner_of_eq: "(if s = Client then Backend else Client) = partner_of s"
  by (cases s) simp_all

lemma partner_of_neq [simp]: "partner_of s \<noteq> s" "s \<noteq> partner_of s"
  by (cases s; simp)+

lemma forward_to_other_eq:
  "forward_to_other p s data st = sendall p (partner_of s) data (st\<lparr>other := Some (partner_of s)\<rparr>)"
  by (simp add: forward_to_other_def Let_def partner_of_eq)

lemma for_exceptional_single:
  assumes "s \<in> set (sockets st)"
  shows "for_exceptional [s] st = (None, close s (st\<lparr>sockets := remove1 s (sockets st)\<rparr>))"
  using assms by (simp add: list_remove_def)

lemma error_on_socket_watched:
  assumes "s \<in> set (sockets st)"
  shows "error_on_socket s st = (None, close s (st\<lparr>sockets := remove1 s (sockets st)\<rparr>))"
  using assms by (simp add: error_on_socket_def list_remove_def)

lemma readable_one_read_failure:
  assumes "s \<in> set (sockets st)" and "incoming p s = RecvError"
  shows "readable_one p s st =
           (None, close s (st\<lparr>trace := trace st @ [Recv s], sockets := remove1 s (sockets st)\<rparr>))"
proof -
  let ?st1 = "st\<lparr>trace := trace st @ [Recv s]\<rparr>"
  have "readable_try p s st = (Some OSError, ?st1)"
    using assms by (simp add: readable_try_def recv_eq)
  moreover have "error_on_socket s ?st1 = (None, close s (?st1\<lparr>sockets := remove1 s (sockets ?st1)\<rparr>))"
    using assms by (intro error_on_socket_watched) simp
  ultimately show ?thesis
    by (simp add: readable_one_def)
qed

lemma sendall_failure:
  assumes "released st s \<or> sendall_error p s = Some n"
  shows "sendall p s data st =
           (Some OSError,
            if released st s then st else st\<lparr>wire := (wire st)(s := wire st s @ take n data)\<rparr>)"
  using assms by (auto simp: sendall_def)

lemma readable_one_write_failure:
  assumes "\<not> is_closed st s" and "s \<in> set (sockets st)"
    and "incoming p s = RecvData buf" and "take 4096 buf \<noteq> []"
    and "released st (partner_of s) \<or> sendall_error p (partner_of s) = Some n"
  shows "readable_one p s st =
           (None, st\<lparr>sockets := remove1 s (sockets st), other := Some (partner_of s),
              wire := (if released st (partner_of s) then wire st
                       else (wire st)(partner_of s :=
                               wire st (partner_of s) @ take n (take 4096 buf))),
              trace := trace st @ [Recv s, Close s]\<rparr>)"
proof -
  let ?st1 = "st\<lparr>trace := trace st @ [Recv s], other := Some (partner_of s)\<rparr>"
  let ?st2 = "if released st (partner_of s) then ?st1
              else ?st1\<lparr>wire := (wire st)(partner_of s := wire st (partner_of s) @ take n (take 4096 buf))\<rparr>"
  have "sendall p (partner_of s) (take 4096 buf) ?st1 = (Some OSError, ?st2)"
    using assms(5) sendall_failure [of ?st1 "partner_of s" p n "take 4096 buf"] by simp
  then have "readable_try p s st = (Some OSError, ?st2)"
    using assms(1,3,4) by (simp add: readable_try_def recv_eq forward_to_other_eq)
  moreover have "error_on_socket s ?st2 = (None, close s (?st2\<lparr>sockets := remove1 s (sockets ?st2)\<rparr>))"
    using assms(2) by (intro error_on_socket_watched) simp
  ultimately show ?thesis
    by (simp add: readable_one_def close_def)
qed

lemma remove1_partner:
  "partner_of s \<in> set (remove1 s xs) \<longleftrightarrow> partner_of s \<in> set xs"
  by (cases s) (simp_all add: in_set_remove1)

text \<open>
  Claim C9. When a non-empty chunk has been read from the watched socket \<open>s\<close> and the
  \<^verbatim>\<open>sendall\<close> to the partner raises a socket error (the operating system fails the write,
  or the partner's descriptor has been released), the \<^verbatim>\<open>except\<close> clause removes and closes
  \<open>s\<close>, the socket that was read from; the partner, on which the write failed, is watched
  and closed after the step exactly as it was before it, so a watched partner stays
  watched and is not closed. A write to the client socket after the handler's \<^verbatim>\<open>close()\<close> on
  it is no such failure: the descriptor is still open and the write reaches the client.
\<close>

theorem write_failure_closes_reader:
  assumes "\<not> is_closed st s" and "s \<in> set (sockets st)" and "distinct (sockets st)"
    and "incoming p s = RecvData buf" and "take 4096 buf \<noteq> []"
    and "released st (partner_of s) \<or> sendall_error p (partner_of s) = Some n"
  shows "fst (readable_one p s st) = None
         \<and> sockets (snd (readable_one p s st)) = remove1 s (sockets st)
         \<and> s \<notin> set (sockets (snd (readable_one p s st)))
         \<and> is_closed (snd (readable_one p s st)) s
         \<and> (partner_of s \<in> set (sockets (snd (readable_one p s st))) \<longleftrightarrow>
              partner_of s \<in> set (sockets st))
         \<and> (is_closed (snd (readable_one p s st)) (partner_of s) \<longleftrightarrow> is_closed st (partner_of s))
         \<and> trace (snd (readable_one p s st)) = trace st @ [Recv s, Close s]"
  unfolding readable_one_write_failure [OF assms(1,2,4,5,6)]
  using assms(3) by (simp add: remove1_partner is_closed_def)

theorem write_failure_closes_reader_witness:
  "\<not> is_closed relay_start Client \<and> Client \<in> set (sockets relay_start)
   \<and> distinct (sockets relay_start)
   \<and> incoming failing_write_poll Client = RecvData ''ping'' \<and> take 4096 ''ping'' \<noteq> []
   \<and> sendall_error failing_write_poll (partner_of Client) = Some 2
   \<and> sockets (snd (readable_one failing_write_poll Client relay_start)) = [Backend]
   \<and> is_closed (snd (readable_one failing_write_poll Client relay_start)) Client
   \<and> \<not> is_closed (snd (readable_one failing_write_poll Client relay_start)) Backend"
  using write_failure_closes_reader [of relay_start Client failing_write_poll "''ping''" 2]
  by (simp add: relay_start_def failing_write_poll_def oracle_eval initial_def is_closed_def)

lemma drops_only_remove:
  assumes "watched_open st" and "s \<in> set (sockets st)"
    and "sockets st' = remove1 s (sockets st)"
    and "\<And>x. is_closed st' x \<longleftrightarrow> x = s \<or> is_closed st x"
  shows "drops_only s st (None, st')"
proof -
  from assms(1) have "distinct (sockets st)"
    by (simp add: watched_open_def)
  with assms show ?thesis
    by (simp add: drops_only_def remove1_partner)
qed

text \<open>
  Claim C6, as amended. For every socket error on a watched socket \<open>s\<close> inside the loop,
  whether \<open>s\<close> is reported exceptional by \<^verbatim>\<open>select\<close>, its \<^verbatim>\<open>recv\<close> fails, or the \<^verbatim>\<open>sendall\<close> of
  the chunk read from it fails (the operating system fails the write, or the partner's
  descriptor has been released), the handling of that error removes exactly \<open>s\<close> from the
  watched list and closes it; it neither removes nor closes the partner of \<open>s\<close>, and it
  raises no exception.
\<close>

theorem socket_error_drops_one_socket:
  assumes "watched_open st" and "s \<in> set (sockets st)"
  shows "drops_only s st (for_exceptional [s] st)
         \<and> (incoming p s = RecvError \<longrightarrow> drops_only s st (readable_one p s st))
         \<and> (incoming p s = RecvData buf \<and> take 4096 buf \<noteq> [] \<and>
              (released st (partner_of s) \<or> sendall_error p (partner_of s) = Some n) \<longrightarrow>
            drops_only s st (readable_one p s st))"
proof (intro conjI impI)
  show "drops_only s st (for_exceptional [s] st)"
    unfolding for_exceptional_single [OF assms(2)]
    using assms by (rule drops_only_remove) simp_all
next
  assume "incoming p s = RecvError"
  then have "readable_one p s st =
           (None, close s (st\<lparr>trace := trace st @ [Recv s], sockets := remove1 s (sockets st)\<rparr>))"
    using assms(2) by (rule readable_one_read_failure [rotated])
  then show "drops_only s st (readable_one p s st)"
    using assms by (auto intro!: drops_only_remove)
next
  assume w: "incoming p s = RecvData buf \<and> take 4096 buf \<noteq> [] \<and>
              (released st (partner_of s) \<or> sendall_error p (partner_of s) = Some n)"
  have op: "\<not> is_closed st s"
    using assms watched_open_iff by simp
  from w have "readable_one p s st =
           (None, st\<lparr>sockets := remove1 s (sockets st), other := Some (partner_of s),
              wire := (if released st (partner_of s) then wire st
                       else (wire st)(partner_of s :=
                               wire st (partner_of s) @ take n (take 4096 buf))),
              trace := trace st @ [Recv s, Close s]\<rparr>)"
    using readable_one_write_failure [OF op assms(2), of p buf n] by simp
  then show "drops_only s st (readable_one p s st)"
    using assms by (auto intro!: drops_only_remove simp: is_closed_def)
qed

theorem socket_error_drops_one_socket_witness:
  "watched_open relay_start \<and> Client \<in> set (sockets relay_start)
   \<and> drops_only Client relay_start (for_exceptional [Client] relay_start)
   \<and> incoming quiet Client = RecvError
   \<and> drops_only Client relay_start (readable_one quiet Client relay_start)
   \<and> incoming failing_write_poll Client = RecvData ''ping'' \<and> take 4096 ''ping'' \<noteq> []
   \<and> sendall_error failing_write_poll (partner_of Client) = Some 2
   \<and> drops_only Client relay_start (readable_one failing_write_poll Client relay_start)
   \<and> sockets (snd (readable_one failing_write_poll Client relay_start)) = [Backend]"
  using socket_error_drops_one_socket [of relay_start Client quiet "[]" 0]
    socket_error_drops_one_socket [of relay_start Client failing_write_poll "''ping''" 2]
  by (simp add: relay_start_def failing_write_poll_def oracle_eval
      watched_open_def drops_only_def run_eval)

text \<open>
  The claim C6 as stated fails: when \<^verbatim>\<open>select\<close> reports the client socket exceptional in the
  first pass, only the client socket is removed and closed; the backend socket is still
  watched and open, and the loop is still running.
\<close>

theorem exceptional_leaves_partner_counterexample:
  "fst (handle_websocket (reachable_backend [exceptional_poll Client])
          (upgrade_request ''websocket'') (initial True)) = Relaying
   \<and> sockets (snd (handle_websocket (reachable_backend [exceptional_poll Client])
          (upgrade_request ''websocket'') (initial True))) = [Backend]
   \<and> \<not> is_closed (snd (handle_websocket (reachable_backend [exceptional_poll Client])
          (upgrade_request ''websocket'') (initial True))) Backend"
  by (simp add: run_eval oracle_eval)

subsection \<open>Calls on a socket after the handler has closed it\<close>

text \<open>
  A client socket that is exceptional and readable at end of file in the same pass is
  closed by the first loop and still read by the second: the read returns no bytes,
  \<^verbatim>\<open>sockets.remove\<close> of the socket already removed raises \<^verbatim>\<open>ValueError\<close>, and the
  invocation ends with the gateway error. For the backend socket the read after
  \<^verbatim>\<open>close()\<close> raises a socket error, which is swallowed, and the loop goes on.
\<close>

lemma client_exceptional_at_eof:
  "fst (handle_websocket (reachable_backend [exceptional_eof_poll Client])
          (upgrade_request ''websocket'') (initial True)) = BadGateway ValueError
   \<and> trace (snd (handle_websocket (reachable_backend [exceptional_eof_poll Client])
          (upgrade_request ''websocket'') (initial True)))
       = [Connect, Close Client, Recv Client, SendError 502]
   \<and> fst (handle_websocket (reachable_backend [exceptional_eof_poll Backend])
          (upgrade_request ''websocket'') (initial True)) = Relaying
   \<and> trace (snd (handle_websocket (reachable_backend [exceptional_eof_poll Backend])
          (upgrade_request ''websocket'') (initial True)))
       = [Connect, Close Backend, Recv Backend]"
  by (simp add: run_eval oracle_eval exceptional_eof_poll_def)

text \<open>
  After the handler's \<^verbatim>\<open>close()\<close> on the client socket, data read from the backend is still
  written to the client, and the backend stays watched.
\<close>

lemma write_to_client_after_close:
  "fst (handle_websocket
          (reachable_backend [data_poll Backend ''hello'', eof_poll Client, data_poll Backend ''more''])
          (upgrade_request ''websocket'') (initial True)) = Relaying
   \<and> sockets (snd (handle_websocket
          (reachable_backend [data_poll Backend ''hello'', eof_poll Client, data_poll Backend ''more''])
          (upgrade_request ''websocket'') (initial True))) = [Backend]
   \<and> wire (snd (handle_websocket
          (reachable_backend [data_poll Backend ''hello'', eof_poll Client, data_poll Backend ''more''])
          (upgrade_request ''websocket'') (initial True))) Client = ''hellomore''
   \<and> trace (snd (handle_websocket
          (reachable_backend [data_poll Backend ''hello'', eof_poll Client, data_poll Backend ''more''])
          (upgrade_request ''websocket'') (initial True)))
       = [Connect, Recv Backend, Recv Client, Close Client, Recv Backend]"
  by (simp add: run_eval oracle_eval)

subsection \<open>End of file\<close>

text \<open>
  When \<^verbatim>\<open>other\<close> happens to be bound to the partner of the socket that reached end of
  file, both sockets are removed and closed.
\<close>

lemma socket_closed_bound_partner:
  assumes "sockets st = [Client, Backend]" and "other st = Some (partner_of s)"
  shows "socket_closed s st =
           (None, st\<lparr>sockets := [], trace := trace st @ [Close s, Close (partner_of s)]\<rparr>)"
  using assms by (cases s) (simp_all add: socket_closed_def list_remove_def close_def Let_def)

text \<open>
  Claim C1, evaluated where the handler departs from it. When the first readable event of
  the relay is an end of file on the client socket, the client socket is removed and
  closed, reading the unassigned \<^verbatim>\<open>other\<close> raises \<^verbatim>\<open>UnboundLocalError\<close>, and the invocation
  ends with the gateway error while the backend socket is still watched and not closed.
  When the client has delivered the last chunk (so that \<^verbatim>\<open>other\<close> is the backend) and the
  backend then reaches end of file, only the backend socket is removed and closed: the
  client socket stays watched and open and the loop goes on. When both sockets are
  readable at end of file in one pass, the second is read after it has been closed.
\<close>

theorem eof_before_data_leaves_partner:
  "fst (handle_websocket (reachable_backend [eof_poll Client])
          (upgrade_request ''websocket'') (initial True)) = BadGateway UnboundLocalError
   \<and> sockets (snd (handle_websocket (reachable_backend [eof_poll Client])
          (upgrade_request ''websocket'') (initial True))) = [Backend]
   \<and> \<not> is_closed (snd (handle_websocket (reachable_backend [eof_poll Client])
          (upgrade_request ''websocket'') (initial True))) Backend
   \<and> fst (handle_websocket (reachable_backend [data_poll Client ''ping'', eof_poll Backend])
          (upgrade_request ''websocket'') (initial True)) = Relaying
   \<and> sockets (snd (handle_websocket (reachable_backend [data_poll Client ''ping'', eof_poll Backend])
          (upgrade_request ''websocket'') (initial True))) = [Client]
   \<and> \<not> is_closed (snd (handle_websocket (reachable_backend [data_poll Client ''ping'', eof_poll Backend])
          (upgrade_request ''websocket'') (initial True))) Client
   \<and> trace (snd (handle_websocket (reachable_backend [data_poll Client ''ping'', eof_both])
          (upgrade_request ''websocket'') (initial True)))
       = [Connect, Recv Client, Recv Client, Close Client, Close Backend, Recv Backend]"
  by (simp add: run_eval oracle_eval eof_both_def)

subsection \<open>Leaving the loop\<close>

text \<open>A pass in which the wait times out changes nothing, and the loop goes on.\<close>

lemma relay_pass_timeout:
  assumes "watched_open st"
    and "\<And>s. \<not> readable_now p s" and "\<And>s. \<not> exceptional_now p s"
  shows "relay_pass p st = (None, st)"
proof -
  have "\<not> list_ex (released st) (sockets st @ sockets st)"
    using assms(1) watched_open_iff [OF assms(1)] by (auto simp: list_ex_iff)
  with assms(2,3) show ?thesis
    by (simp add: relay_pass_def select_def)
qed

text \<open>
  Claim C8, evaluated where the handler departs from it. When the first readable event of
  the relay is an end of file on the backend socket, the loop is left by the
  \<^verbatim>\<open>UnboundLocalError\<close> of the unassigned \<^verbatim>\<open>other\<close> although the client socket is still
  watched and a further pass is available; the invocation ends with the gateway error.
\<close>

theorem loop_left_with_watched_socket:
  "fst (relay_loop [eof_poll Backend, quiet] relay_start) = Raised UnboundLocalError
   \<and> sockets (snd (relay_loop [eof_poll Backend, quiet] relay_start)) = [Client]
   \<and> fst (handle_websocket (reachable_backend [eof_poll Backend, quiet])
          (upgrade_request ''websocket'') (initial True)) = BadGateway UnboundLocalError"
  by (simp add: run_eval oracle_eval relay_start_def)

subsection \<open>Relaying data\<close>








subsection \<open>Handshake forwarding\<close>

lemma headers_getitem_distinct:
  assumes "distinct (map (\<lambda>h. str_lower (fst h)) hs)" and "(k, v) \<in> set hs"
  shows "headers_getitem hs k = Some v"
  using assms unfolding headers_getitem_def
proof (induction hs)
  case Nil
  then show ?case by simp
next
  case (Cons h hs)
  obtain k' v' where h: "h = (k', v')" by (cases h)
  show ?case
  proof (cases "(k, v) = (k', v')")
    case True
    with h show ?thesis by simp
  next
    case False
    with Cons.prems h have mem: "(k, v) \<in> set hs" by auto
    then have "str_lower k \<in> set (map (\<lambda>h. str_lower (fst h)) hs)"
      by force
    moreover have "str_lower k' \<notin> set (map (\<lambda>h. str_lower (fst h)) hs)"
      using Cons.prems(1) h by simp
    ultimately have "str_lower k' \<noteq> str_lower k" by metis
    with Cons.IH Cons.prems mem h show ?thesis by simp
  qed
qed

lemma send_complete:
  assumes "\<not> is_closed st s" and "send_room w (nsend st) = Some n" and "length data \<le> n"
  shows "send w s data st =
           (None, st\<lparr>wire := (wire st)(s := wire st s @ data), nsend := Suc (nsend st)\<rparr>)"
  using assms by (simp add: send_def Let_def)

lemma forward_headers_complete:
  assumes "\<not> is_closed st Backend"
    and "\<And>i. \<exists>n. send_room w i = Some n \<and> bound \<le> n"
    and "\<And>h. h \<in> set rest \<Longrightarrow> headers_getitem hs (fst h) = Some (snd h)"
    and "\<And>h. h \<in> set rest \<Longrightarrow> length (encode (fst h @ '': '' @ snd h @ CRLF)) \<le> bound"
  shows "fst (forward_headers w hs (map fst rest) st) = None
         \<and> trace (snd (forward_headers w hs (map fst rest) st)) = trace st
         \<and> wire (snd (forward_headers w hs (map fst rest) st)) Backend =
             wire st Backend @ concat (map (\<lambda>h. encode (fst h @ '': '' @ snd h @ CRLF)) rest)"
  using assms
proof (induction rest arbitrary: st)
  case Nil
  then show ?case by simp
next
  case (Cons h rest)
  let ?line = "encode (fst h @ '': '' @ snd h @ CRLF)"
  obtain n where n: "send_room w (nsend st) = Some n" "bound \<le> n"
    using Cons.prems(2) by blast
  have line: "encode (header_line hs (fst h)) = ?line"
    using Cons.prems(3) [of h] by (simp add: header_line_def format_value_def)
  have len: "length ?line \<le> n"
    using Cons.prems(4) [of h] n by simp
  let ?st1 = "st\<lparr>wire := (wire st)(Backend := wire st Backend @ ?line), nsend := Suc (nsend st)\<rparr>"
  have snd1: "send w Backend (encode (header_line hs (fst h))) st = (None, ?st1)"
    unfolding line using Cons.prems(1) n(1) len by (rule send_complete)
  have open1: "\<not> is_closed ?st1 Backend"
    using Cons.prems(1) by simp
  have "fst (forward_headers w hs (map fst rest) ?st1) = None
         \<and> trace (snd (forward_headers w hs (map fst rest) ?st1)) = trace ?st1
         \<and> wire (snd (forward_headers w hs (map fst rest) ?st1)) Backend =
             wire ?st1 Backend @ concat (map (\<lambda>h. encode (fst h @ '': '' @ snd h @ CRLF)) rest)"
    using open1 Cons.prems(2,3,4) by (intro Cons.IH) simp_all
  with snd1 show ?case by simp
qed

text \<open>
  Where the forwarding does replay the request: when no two header names are equal up to
  letter case and every \<^verbatim>\<open>send\<close> takes the whole line, the bytes written to the backend are
  the bytes of \<^const>\<open>replay_bytes\<close>.
\<close>

lemma forward_request_complete:
  assumes "\<not> is_closed st Backend"
    and "distinct (map (\<lambda>h. str_lower (fst h)) (headers req))"
    and "\<And>i. \<exists>n. send_room w i = Some n \<and> bound \<le> n"
    and "length (encode (request_line req)) \<le> bound" and "2 \<le> bound"
    and "\<And>h. h \<in> set (headers req) \<Longrightarrow> length (encode (fst h @ '': '' @ snd h @ CRLF)) \<le> bound"
  shows "fst (forward_request w req st) = None
         \<and> wire (snd (forward_request w req st)) Backend = wire st Backend @ replay_bytes req"
proof -
  let ?rl = "encode (request_line req)"
  obtain n1 where n1: "send_room w (nsend st) = Some n1" "bound \<le> n1"
    using assms(3) by blast
  let ?st1 = "st\<lparr>wire := (wire st)(Backend := wire st Backend @ ?rl), nsend := Suc (nsend st)\<rparr>"
  have s1: "send w Backend ?rl st = (None, ?st1)"
    using assms(1) n1(1) by (rule send_complete) (use assms(4) n1(2) in simp)
  have open1: "\<not> is_closed ?st1 Backend"
    using assms(1) by simp
  have item: "\<And>h. h \<in> set (headers req) \<Longrightarrow> headers_getitem (headers req) (fst h) = Some (snd h)"
    using headers_getitem_distinct [OF assms(2)] by (metis prod.collapse)
  obtain r2 st2 where r2: "forward_headers w (headers req) (headers_iter (headers req)) ?st1 = (r2, st2)"
    by (cases "forward_headers w (headers req) (headers_iter (headers req)) ?st1")
  have t2: "trace st2 = trace st"
    using forward_headers_trace [of w "headers req" "headers_iter (headers req)" ?st1] r2
    by simp
  have h2: "r2 = None
         \<and> wire st2 Backend =
             wire ?st1 Backend @ concat (map (\<lambda>h. encode (fst h @ '': '' @ snd h @ CRLF)) (headers req))"
    using forward_headers_complete [OF open1 assms(3) item assms(6), of "headers req"] r2
    by (simp add: headers_iter_def)
  have open2: "\<not> is_closed st2 Backend"
    using assms(1) t2 by (simp add: is_closed_def)
  obtain n3 where n3: "send_room w (nsend st2) = Some n3" "bound \<le> n3"
    using assms(3) by blast
  have s3: "send w Backend CRLF st2 =
          (None, st2\<lparr>wire := (wire st2)(Backend := wire st2 Backend @ CRLF), nsend := Suc (nsend st2)\<rparr>)"
    using open2 n3(1) by (rule send_complete) (use assms(5) n3(2) in \<open>simp add: CRLF_def\<close>)
  show ?thesis
    using s1 r2 h2 s3 by (simp add: forward_request_def replay_bytes_def)
qed

text \<open>
  Claim C2, evaluated where the handler departs from it. The header lines are built from
  \<^verbatim>\<open>self.headers[header]\<close>, which is the value of the first field of that name: for a
  request with two \<open>Sec-WebSocket-Protocol\<close> fields, the value of the first is written for
  both, and the bytes written to the backend are not the bytes of the handshake replay.
  The lines are written with \<^verbatim>\<open>send\<close>, whose return value is ignored: with a kernel that
  takes eight bytes for each call, only the first eight bytes of every line are written.
\<close>

theorem duplicate_header_not_replayed:
  "wire (snd (handle_websocket (reachable_backend []) duplicate_header_request (initial True))) Backend
     = ''GET /ws HTTP/1.1'' @ CRLF
       @ ''Upgrade: websocket'' @ CRLF
       @ ''Sec-WebSocket-Protocol: chat'' @ CRLF
       @ ''Sec-WebSocket-Protocol: chat'' @ CRLF
       @ CRLF
   \<and> replay_bytes duplicate_header_request
     = ''GET /ws HTTP/1.1'' @ CRLF
       @ ''Upgrade: websocket'' @ CRLF
       @ ''Sec-WebSocket-Protocol: chat'' @ CRLF
       @ ''Sec-WebSocket-Protocol: superchat'' @ CRLF
       @ CRLF
   \<and> wire (snd (handle_websocket (reachable_backend []) duplicate_header_request (initial True))) Backend
     \<noteq> replay_bytes duplicate_header_request
   \<and> wire (snd (handle_websocket short_writes (upgrade_request ''websocket'') (initial True))) Backend
     = ''GET /ws '' @ ''Host: ga'' @ ''upgrade:'' @ CRLF
   \<and> wire (snd (handle_websocket short_writes (upgrade_request ''websocket'') (initial True))) Backend
     \<noteq> replay_bytes (upgrade_request ''websocket'')"
  by (simp add: run_eval oracle_eval duplicate_header_request_def short_writes_def replay_bytes_def)

end
